theory Spec2Isabelle
  imports Main "HOL-Library.Multiset"
begin

section \<open>Data model\<close>

text \<open>
  The collaboration backend: \<^verbatim>\<open>app/services/websocket_manager.py\<close> (the connection
  registry), \<^verbatim>\<open>app/routers/websocket.py\<close> (the endpoint and its receive loop),
  \<^verbatim>\<open>app/schemas/websocket.py\<close> (the message schema) and
  \<^verbatim>\<open>app/services/room_service.py\<close> (the room table).

  A \<^verbatim>\<open>WebSocket\<close> object is compared by identity in the source (\<^verbatim>\<open>in\<close>,
  \<^verbatim>\<open>remove\<close>, \<^verbatim>\<open>!=\<close>), so it is modelled by a number naming the object.
\<close>

type_synonym room_id = string
type_synonym websocket = nat

text \<open>
  Values produced by \<^verbatim>\<open>json.loads\<close> and consumed by \<^verbatim>\<open>json.dumps\<close>. A number with a
  fraction or an exponent (a Python float) is carried by its literal; the code never
  looks inside one. An object is the list of its items in insertion order.
\<close>

datatype json =
    JNull
  | JBool bool
  | JInt int
  | JFloat string
  | JStr string
  | JArr "json list"
  | JObj "(string \<times> json) list"

text \<open>
  A text frame on the wire is taken up to JSON equivalence: it is either the
  serialisation of a JSON value, or a text that \<^verbatim>\<open>json.loads\<close> rejects.
\<close>

datatype frame = Json json | Garbage string

datatype exn =
    JSONDecodeError
  | ValidationError
  | TypeError
  | SQLAlchemyError
  | TransportError
  | RuntimeError

fun json_loads :: "frame \<Rightarrow> exn + json" where
  "json_loads (Json j) = Inr j"
| "json_loads (Garbage s) = Inl JSONDecodeError"

definition json_dumps :: "json \<Rightarrow> frame" where
  "json_dumps j = Json j"

text \<open>
  The state the code reads and writes. \<open>active_connections\<close> is the dictionary of
  \<^verbatim>\<open>WebSocketManager\<close>; \<open>rooms\<close> is the table behind \<^verbatim>\<open>room_service\<close>
  (room id to code). The remaining fields are the environment: \<open>broken\<close> holds the
  sockets whose transport is down (every transport call on them raises), \<open>db_down\<close>
  says that a database call raises \<^verbatim>\<open>SQLAlchemyError\<close>; \<open>accepted\<close>, \<open>sent\<close> and
  \<open>closes\<close> record what the transports were given, oldest first, and \<open>update_calls\<close>
  records the calls of \<^verbatim>\<open>update_room_code\<close>.
\<close>

record world =
  active_connections :: "room_id \<rightharpoonup> websocket list"
  rooms :: "room_id \<rightharpoonup> string"
  db_down :: bool
  broken :: "websocket set"
  accepted :: "websocket list"
  sent :: "(websocket \<times> frame) list"
  closes :: "(websocket \<times> nat \<times> string) list"
  update_calls :: "(room_id \<times> string) list"

text \<open>A call either raises (\<open>Inl\<close>) or returns (\<open>Inr\<close>); the world it leaves is kept in both cases.\<close>

type_synonym 'a result = "(exn + 'a) \<times> world"

section \<open>Transport calls\<close>

text \<open>
  \<^verbatim>\<open>WebSocket.accept\<close> is Starlette's: besides failing when the transport is down, it
  raises \<^verbatim>\<open>RuntimeError\<close> for a socket that has already been accepted or closed.
\<close>

definition accept :: "websocket \<Rightarrow> world \<Rightarrow> unit result" where
  "accept ws w =
     (if ws \<in> broken w then (Inl TransportError, w)
      else if ws \<in> set (accepted w) \<or> ws \<in> fst ` set (closes w) then (Inl RuntimeError, w)
      else (Inr (), w\<lparr>accepted := accepted w @ [ws]\<rparr>))"

definition send_text :: "websocket \<Rightarrow> frame \<Rightarrow> world \<Rightarrow> unit result" where
  "send_text ws t w =
     (if ws \<in> broken w then (Inl TransportError, w)
      else (Inr (), w\<lparr>sent := sent w @ [(ws, t)]\<rparr>))"

definition close :: "websocket \<Rightarrow> nat \<Rightarrow> string \<Rightarrow> world \<Rightarrow> unit result" where
  "close ws code reason w =
     (if ws \<in> broken w then (Inl TransportError, w)
      else (Inr (), w\<lparr>closes := closes w @ [(ws, code, reason)]\<rparr>))"

section \<open>WebSocketManager\<close>

text \<open>The members registered for a room; a room without an entry has none.\<close>

definition sessions :: "world \<Rightarrow> room_id \<Rightarrow> websocket list" where
  "sessions w room_id = (case active_connections w room_id of None \<Rightarrow> [] | Some l \<Rightarrow> l)"

text \<open>\<^verbatim>\<open>WebSocketManager.connect\<close>: accept, create the list when the key is new, append.\<close>

definition connect :: "room_id \<Rightarrow> websocket \<Rightarrow> world \<Rightarrow> unit result" where
  "connect room_id ws w =
     (case accept ws w of
        (Inl e, w1) \<Rightarrow> (Inl e, w1)
      | (Inr _, w1) \<Rightarrow>
          (let ac = active_connections w1;
               ac1 = (if room_id \<notin> dom ac then ac(room_id \<mapsto> []) else ac);
               ac2 = (case ac1 room_id of
                        None \<Rightarrow> ac1
                      | Some l \<Rightarrow> ac1(room_id \<mapsto> l @ [ws]))
           in (Inr (), w1\<lparr>active_connections := ac2\<rparr>)))"

text \<open>
  \<^verbatim>\<open>WebSocketManager.disconnect\<close>: \<^verbatim>\<open>list.remove\<close> deletes the first occurrence; the
  length test runs whether or not something was removed.
\<close>

definition disconnect :: "room_id \<Rightarrow> websocket \<Rightarrow> world \<Rightarrow> world" where
  "disconnect room_id ws w =
     (case active_connections w room_id of
        None \<Rightarrow> w
      | Some l \<Rightarrow>
          (let l1 = (if ws \<in> set l then remove1 ws l else l)
           in if length l1 = 0
              then w\<lparr>active_connections := (active_connections w)(room_id := None)\<rparr>
              else w\<lparr>active_connections := (active_connections w)(room_id \<mapsto> l1)\<rparr>))"

text \<open>
  The delivery loop of \<^verbatim>\<open>broadcast\<close>: one \<^verbatim>\<open>send_text\<close> for each connection other
  than \<open>exclude\<close>; a send that raises puts the connection on the list that is returned
  (\<^verbatim>\<open>disconnected_websockets\<close>) and the loop goes on.
\<close>

fun send_each :: "frame \<Rightarrow> websocket option \<Rightarrow> websocket list \<Rightarrow> world \<Rightarrow> websocket list \<times> world" where
  "send_each message_json exclude [] w = ([], w)"
| "send_each message_json exclude (connection # rest) w =
     (if Some connection \<noteq> exclude then
        (case send_text connection message_json w of
           (Inl e, w1) \<Rightarrow>
             (case send_each message_json exclude rest w1 of
                (disconnected, w2) \<Rightarrow> (connection # disconnected, w2))
         | (Inr _, w1) \<Rightarrow> send_each message_json exclude rest w1)
      else send_each message_json exclude rest w)"

definition broadcast :: "room_id \<Rightarrow> json \<Rightarrow> websocket option \<Rightarrow> world \<Rightarrow> world" where
  "broadcast room_id message exclude w =
     (case active_connections w room_id of
        None \<Rightarrow> w
      | Some connections \<Rightarrow>
          (let message_json = json_dumps message
           in case send_each message_json exclude connections w of
                (disconnected_websockets, w1) \<Rightarrow>
                  fold (disconnect room_id) disconnected_websockets w1))"

text \<open>What a call appended to the log of delivered frames.\<close>

definition delivered :: "world \<Rightarrow> world \<Rightarrow> (websocket \<times> frame) list" where
  "delivered w w' = drop (length (sent w)) (sent w')"

subsection \<open>Sequences of manager calls\<close>

text \<open>
  A call of one of the three methods, or a change of the environment (which transports
  are down) between two calls. A \<^verbatim>\<open>connect\<close> that raises leaves the registry as it was.
\<close>

datatype manager_op =
    Connect room_id websocket
  | Disconnect room_id websocket
  | Broadcast room_id json "websocket option"
  | Transports "websocket set"

fun apply_op :: "manager_op \<Rightarrow> world \<Rightarrow> world" where
  "apply_op (Connect room_id ws) w = snd (connect room_id ws w)"
| "apply_op (Disconnect room_id ws) w = disconnect room_id ws w"
| "apply_op (Broadcast room_id message exclude) w = broadcast room_id message exclude w"
| "apply_op (Transports down) w = w\<lparr>broken := down\<rparr>"

definition run_ops :: "manager_op list \<Rightarrow> world \<Rightarrow> world" where
  "run_ops ops w = fold apply_op ops w"

text \<open>The manager as \<^verbatim>\<open>__init__\<close> leaves it, in an otherwise empty world.\<close>

definition fresh :: world where
  "fresh = \<lparr>active_connections = Map.empty, rooms = Map.empty, db_down = False,
            broken = {}, accepted = [], sent = [], closes = [], update_calls = []\<rparr>"

section \<open>Message schema\<close>

text \<open>
  \<^verbatim>\<open>class WebSocketMessage(BaseModel)\<close>: \<^verbatim>\<open>type: str\<close> is required, the other four
  fields are \<^verbatim>\<open>Optional\<close> with default \<^verbatim>\<open>None\<close>.
\<close>

record WebSocketMessage =
  msg_type :: string
  msg_code :: "string option"
  msg_timestamp :: "int option"
  msg_message :: "string option"
  msg_roomId :: "string option"

text \<open>
  How pydantic validates one value against a declared type is library behaviour that
  differs between its versions and modes (which inputs are coerced). The validators for
  \<^verbatim>\<open>str\<close> and \<^verbatim>\<open>int\<close> are therefore parameters: each returns the field's value, or
  \<open>None\<close> when it rejects the input.
\<close>

record validators =
  str_validator :: "json \<Rightarrow> string option"
  int_validator :: "json \<Rightarrow> int option"

text \<open>The validators that accept a value of exactly the declared JSON type and nothing else.\<close>

definition exact_types :: validators where
  "exact_types =
     \<lparr>str_validator = (\<lambda>j. case j of JStr s \<Rightarrow> Some s | _ \<Rightarrow> None),
      int_validator = (\<lambda>j. case j of JInt i \<Rightarrow> Some i | _ \<Rightarrow> None)\<rparr>"

text \<open>
  In its default mode pydantic also accepts, for an \<^verbatim>\<open>int\<close> field, a string of decimal
  digits and reads it as the integer it denotes. The validators below add that one
  conversion to the exact types; the other conversions of the default mode are not
  needed here.
\<close>

definition digit :: "char \<Rightarrow> int option" where
  "digit ch = map_of (zip ''0123456789'' [0, 1, 2, 3, 4, 5, 6, 7, 8, 9]) ch"

fun decimal :: "int \<Rightarrow> string \<Rightarrow> int option" where
  "decimal acc [] = Some acc"
| "decimal acc (ch # rest) =
     (case digit ch of None \<Rightarrow> None | Some v \<Rightarrow> decimal (10 * acc + v) rest)"

definition int_of_digits :: "string \<Rightarrow> int option" where
  "int_of_digits s = (if s = [] then None else decimal 0 s)"

definition coercing_types :: validators where
  "coercing_types =
     \<lparr>str_validator = (\<lambda>j. case j of JStr s \<Rightarrow> Some s | _ \<Rightarrow> None),
      int_validator = (\<lambda>j. case j of JInt i \<Rightarrow> Some i | JStr s \<Rightarrow> int_of_digits s | _ \<Rightarrow> None)\<rparr>"

text \<open>A required field: a missing key is a validation error.\<close>

definition required_field :: "(json \<Rightarrow> 'a option) \<Rightarrow> (string \<times> json) list \<Rightarrow> string \<Rightarrow> 'a option" where
  "required_field v d k = (case map_of d k of None \<Rightarrow> None | Some j \<Rightarrow> v j)"

text \<open>An \<^verbatim>\<open>Optional\<close> field with default \<^verbatim>\<open>None\<close>: a missing key and \<^verbatim>\<open>null\<close> both give \<^verbatim>\<open>None\<close>.\<close>

definition optional_field :: "(json \<Rightarrow> 'a option) \<Rightarrow> (string \<times> json) list \<Rightarrow> string \<Rightarrow> 'a option option" where
  "optional_field v d k =
     (case map_of d k of
        None \<Rightarrow> Some None
      | Some JNull \<Rightarrow> Some None
      | Some j \<Rightarrow> map_option Some (v j))"

text \<open>
  \<^verbatim>\<open>WebSocketMessage(**message_dict)\<close> for a dictionary: the class sets no model
  configuration, so keys that are not fields are ignored (pydantic's default) and only
  the five declared fields are read.
\<close>

definition WebSocketMessage_init :: "validators \<Rightarrow> (string \<times> json) list \<Rightarrow> exn + WebSocketMessage" where
  "WebSocketMessage_init V d =
     (case (required_field (str_validator V) d ''type'',
            optional_field (str_validator V) d ''code'',
            optional_field (int_validator V) d ''timestamp'',
            optional_field (str_validator V) d ''message'',
            optional_field (str_validator V) d ''roomId'') of
        (Some t, Some c, Some ts, Some m, Some r) \<Rightarrow>
          Inr \<lparr>msg_type = t, msg_code = c, msg_timestamp = ts, msg_message = m, msg_roomId = r\<rparr>
      | _ \<Rightarrow> Inl ValidationError)"

text \<open>
  Lines 53 and 56 of the endpoint: \<^verbatim>\<open>json.loads(data)\<close>, then
  \<^verbatim>\<open>WebSocketMessage(**message_dict)\<close>. Unpacking with \<^verbatim>\<open>**\<close> a value that is not a
  mapping (a list, a string, a number, \<^verbatim>\<open>null\<close>) raises \<^verbatim>\<open>TypeError\<close>.
\<close>

definition parse_message :: "validators \<Rightarrow> frame \<Rightarrow> exn + WebSocketMessage" where
  "parse_message V data =
     (case json_loads data of
        Inl e \<Rightarrow> Inl e
      | Inr message_dict \<Rightarrow>
          (case message_dict of
             JObj d \<Rightarrow> WebSocketMessage_init V d
           | _ \<Rightarrow> Inl TypeError))"



section \<open>Room service\<close>

text \<open>
  \<^verbatim>\<open>room_exists\<close>, \<^verbatim>\<open>get_room\<close> and \<^verbatim>\<open>update_room_code\<close>. A \<^verbatim>\<open>Room\<close> row is
  represented by its code. \<^verbatim>\<open>update_room_code\<close> re-raises after the rollback, so a
  database error leaves the table as it was.
\<close>

definition room_exists :: "room_id \<Rightarrow> world \<Rightarrow> bool result" where
  "room_exists room_id w =
     (if db_down w then (Inl SQLAlchemyError, w)
      else (Inr (rooms w room_id \<noteq> None), w))"

definition get_room :: "room_id \<Rightarrow> world \<Rightarrow> string option result" where
  "get_room room_id w =
     (if db_down w then (Inl SQLAlchemyError, w)
      else (Inr (rooms w room_id), w))"

definition update_room_code :: "room_id \<Rightarrow> string \<Rightarrow> world \<Rightarrow> string option result" where
  "update_room_code room_id code w =
     (let w0 = w\<lparr>update_calls := update_calls w @ [(room_id, code)]\<rparr>
      in case get_room room_id w0 of
           (Inl e, w1) \<Rightarrow> (Inl e, w1)
         | (Inr None, w1) \<Rightarrow> (Inr None, w1)
         | (Inr (Some room), w1) \<Rightarrow>
             (Inr (Some code), w1\<lparr>rooms := (rooms w1)(room_id \<mapsto> code)\<rparr>))"

section \<open>The endpoint\<close>

definition error_message :: "string \<Rightarrow> json" where
  "error_message m = JObj [(''type'', JStr ''error''), (''message'', JStr m)]"

text \<open>
  \<^verbatim>\<open>WebSocketManager.send_initial_state\<close>: whatever the \<^verbatim>\<open>try\<close> block raises, also a
  failed send, is answered by one more send, which may raise in turn.
\<close>

definition send_initial_state :: "websocket \<Rightarrow> room_id \<Rightarrow> world \<Rightarrow> unit result" where
  "send_initial_state ws room_id w =
     (case (case get_room room_id w of
              (Inl e, w1) \<Rightarrow> (Inl e, w1)
            | (Inr None, w1) \<Rightarrow> send_text ws (json_dumps (error_message ''Room not found'')) w1
            | (Inr (Some code), w1) \<Rightarrow>
                send_text ws (json_dumps (JObj [(''type'', JStr ''initial_state''),
                                                (''code'', JStr code),
                                                (''roomId'', JStr room_id)])) w1) of
        (Inl e, w2) \<Rightarrow>
          send_text ws (json_dumps (error_message ''Failed to retrieve initial state'')) w2
      | (Inr u, w2) \<Rightarrow> (Inr u, w2))"

text \<open>
  Lines 59 to 103: the \<^verbatim>\<open>code_update\<close> branch. The inner \<^verbatim>\<open>try\<close> covers the store
  update, the reply for a missing room and the broadcast; its \<^verbatim>\<open>except Exception\<close>
  answers with one more send.
\<close>

definition handle_code_update :: "websocket \<Rightarrow> room_id \<Rightarrow> WebSocketMessage \<Rightarrow> world \<Rightarrow> unit result" where
  "handle_code_update ws room_id message w =
     (case msg_code message of
        None \<Rightarrow>
          send_text ws (json_dumps (error_message
            (''Missing '' @ [CHR 0x27] @ ''code'' @ [CHR 0x27] @ '' field in code_update message''))) w
      | Some c \<Rightarrow>
          (case (case update_room_code room_id c w of
                   (Inl e, w1) \<Rightarrow> (Inl e, w1)
                 | (Inr None, w1) \<Rightarrow>
                     send_text ws (json_dumps (error_message ''Failed to update room code'')) w1
                 | (Inr (Some updated_room), w1) \<Rightarrow>
                     (Inr (), broadcast room_id
                        (JObj [(''type'', JStr ''code_update''),
                               (''code'', JStr c),
                               (''timestamp'', case msg_timestamp message of
                                                 None \<Rightarrow> JNull | Some t \<Rightarrow> JInt t)])
                        (Some ws) w1)) of
             (Inl e, w2) \<Rightarrow>
               send_text ws (json_dumps (error_message ''Database error occurred'')) w2
           | (Inr u, w2) \<Rightarrow> (Inr u, w2)))"

text \<open>
  Lines 51 to 124: what the loop does with one received text. Only
  \<^verbatim>\<open>JSONDecodeError\<close> and \<^verbatim>\<open>ValidationError\<close> have a handler here; any other exception
  leaves the loop.
\<close>

definition receive_body :: "validators \<Rightarrow> websocket \<Rightarrow> room_id \<Rightarrow> frame \<Rightarrow> world \<Rightarrow> unit result" where
  "receive_body V ws room_id data w =
     (case parse_message V data of
        Inr message \<Rightarrow>
          (if msg_type message = ''code_update''
           then handle_code_update ws room_id message w
           else send_text ws (json_dumps (error_message
                  (''Unknown message type: '' @ msg_type message))) w)
      | Inl JSONDecodeError \<Rightarrow>
          send_text ws (json_dumps (error_message ''Invalid JSON format'')) w
      | Inl ValidationError \<Rightarrow>
          send_text ws (json_dumps (error_message ''Invalid message format'')) w
      | Inl e \<Rightarrow> (Inl e, w))"

datatype status = Running | Finished

text \<open>
  \<^verbatim>\<open>websocket_endpoint\<close> in three parts. Opening (lines 33 to 44): the existence check
  and \<^verbatim>\<open>connect\<close> are outside the outer \<^verbatim>\<open>try\<close>, so an exception there ends the
  call with nothing to undo; a failure of \<^verbatim>\<open>send_initial_state\<close> is inside and leads
  to \<^verbatim>\<open>disconnect\<close>.
\<close>

definition websocket_endpoint_open :: "websocket \<Rightarrow> room_id \<Rightarrow> world \<Rightarrow> status \<times> world" where
  "websocket_endpoint_open ws room_id w =
     (case room_exists room_id w of
        (Inl e, w1) \<Rightarrow> (Finished, w1)
      | (Inr False, w1) \<Rightarrow> (Finished, snd (close ws 4004 ''Room not found'' w1))
      | (Inr True, w1) \<Rightarrow>
          (case connect room_id ws w1 of
             (Inl e, w2) \<Rightarrow> (Finished, w2)
           | (Inr _, w2) \<Rightarrow>
               (case send_initial_state ws room_id w2 of
                  (Inl e, w3) \<Rightarrow> (Finished, disconnect room_id ws w3)
                | (Inr _, w3) \<Rightarrow> (Running, w3))))"

text \<open>One turn of the loop for a text that \<^verbatim>\<open>receive_text\<close> returned.\<close>

definition websocket_endpoint_message ::
  "validators \<Rightarrow> websocket \<Rightarrow> room_id \<Rightarrow> frame \<Rightarrow> world \<Rightarrow> status \<times> world" where
  "websocket_endpoint_message V ws room_id data w =
     (case receive_body V ws room_id data w of
        (Inl e, w1) \<Rightarrow> (Finished, disconnect room_id ws w1)
      | (Inr _, w1) \<Rightarrow> (Running, w1))"

text \<open>\<^verbatim>\<open>receive_text\<close> raises \<^verbatim>\<open>WebSocketDisconnect\<close>.\<close>

definition websocket_endpoint_disconnect :: "websocket \<Rightarrow> room_id \<Rightarrow> world \<Rightarrow> status \<times> world" where
  "websocket_endpoint_disconnect ws room_id w = (Finished, disconnect room_id ws w)"

subsection \<open>Runs of the server\<close>

text \<open>
  What can happen to a running server, one event at a time: a client opens the endpoint
  for a room, a connection delivers a text, a connection hangs up, and the environment
  changes (transports go down or come back, the database goes down or comes back, the
  room table is written). The repository has no code that deletes a room, so a write
  to the table keeps every room that is there.
\<close>

datatype event =
    Open websocket room_id
  | Receive websocket room_id frame
  | Hangup websocket room_id
  | TransportsDown "websocket set"
  | DatabaseDown bool
  | TableWritten "room_id \<rightharpoonup> string"

fun step :: "validators \<Rightarrow> event \<Rightarrow> world \<Rightarrow> world" where
  "step V (Open ws room_id) w = snd (websocket_endpoint_open ws room_id w)"
| "step V (Receive ws room_id data) w = snd (websocket_endpoint_message V ws room_id data w)"
| "step V (Hangup ws room_id) w = snd (websocket_endpoint_disconnect ws room_id w)"
| "step V (TransportsDown down) w = w\<lparr>broken := down\<rparr>"
| "step V (DatabaseDown b) w = w\<lparr>db_down := b\<rparr>"
| "step V (TableWritten t) w = (if dom (rooms w) \<subseteq> dom t then w\<lparr>rooms := t\<rparr> else w)"

definition run_events :: "validators \<Rightarrow> event list \<Rightarrow> world \<Rightarrow> world" where
  "run_events V evs w = fold (step V) evs w"

text \<open>
  A relation between two worlds used for the runs: no new key in the registry, no room
  lost from the table.
\<close>

definition shrinks :: "world \<Rightarrow> world \<Rightarrow> bool" where
  "shrinks w w' \<longleftrightarrow>
     dom (active_connections w') \<subseteq> dom (active_connections w) \<and> dom (rooms w) \<subseteq> dom (rooms w')"

text \<open>
  Every member of a room has been accepted, and no member list holds a socket twice.
\<close>

definition well_registered :: "world \<Rightarrow> bool" where
  "well_registered w \<longleftrightarrow>
     (\<forall>r. set (sessions w r) \<subseteq> set (accepted w)) \<and> (\<forall>r. distinct (sessions w r))"

section \<open>Properties of the registry\<close>

lemma connect_cases:
  "fst (connect room_id ws w) = Inr () \<and> ws \<notin> set (accepted w) \<and>
     accepted (snd (connect room_id ws w)) = accepted w @ [ws] \<and>
     (\<forall>r. sessions (snd (connect room_id ws w)) r =
            (if r = room_id then sessions w room_id @ [ws] else sessions w r))
   \<or> (\<exists>e. connect room_id ws w = (Inl e, w))"
  by (auto simp: connect_def accept_def sessions_def Let_def domIff
      split: option.splits if_splits)

lemma accepted_raises:
  "ws \<in> set (accepted w) \<Longrightarrow> \<exists>e. connect room_id ws w = (Inl e, w)"
  by (simp add: connect_def accept_def)

lemma connect_no_empty:
  assumes "\<forall>r. active_connections w r \<noteq> Some []"
  shows "active_connections (snd (connect room_id ws w)) r \<noteq> Some []"
  using assms
  by (auto simp: connect_def accept_def Let_def split: option.splits if_splits)

lemma disconnect_no_empty:
  assumes "\<forall>r. active_connections w r \<noteq> Some []"
  shows "active_connections (disconnect room_id ws w) r \<noteq> Some []"
  using assms
  by (auto simp: disconnect_def Let_def split: option.splits if_splits)

lemma sessions_disconnect:
  "sessions (disconnect room_id ws w) r =
     (if r = room_id then remove1 ws (sessions w room_id) else sessions w r)"
  by (auto simp: disconnect_def sessions_def Let_def remove1_idem split: option.splits)

lemma disconnect_fields [simp]:
  "sent (disconnect room_id ws w) = sent w"
  "broken (disconnect room_id ws w) = broken w"
  "rooms (disconnect room_id ws w) = rooms w"
  "db_down (disconnect room_id ws w) = db_down w"
  "accepted (disconnect room_id ws w) = accepted w"
  "closes (disconnect room_id ws w) = closes w"
  "update_calls (disconnect room_id ws w) = update_calls w"
  by (auto simp: disconnect_def Let_def split: option.splits)

lemma fold_disconnect_fields [simp]:
  "sent (fold (disconnect room_id) ds w) = sent w"
  "broken (fold (disconnect room_id) ds w) = broken w"
  "rooms (fold (disconnect room_id) ds w) = rooms w"
  "db_down (fold (disconnect room_id) ds w) = db_down w"
  "accepted (fold (disconnect room_id) ds w) = accepted w"
  "closes (fold (disconnect room_id) ds w) = closes w"
  "update_calls (fold (disconnect room_id) ds w) = update_calls w"
  by (induction ds arbitrary: w; simp)+

lemma fold_disconnect_no_empty:
  assumes "\<forall>r. active_connections w r \<noteq> Some []"
  shows "active_connections (fold (disconnect room_id) ds w) r \<noteq> Some []"
  using assms
proof (induction ds arbitrary: w)
  case Nil
  then show ?case by simp
next
  case (Cons d ds)
  have "\<forall>r. active_connections (disconnect room_id d w) r \<noteq> Some []"
    using Cons.prems disconnect_no_empty by blast
  then show ?case using Cons.IH by simp
qed

lemma sessions_fold_disconnect:
  "sessions (fold (disconnect room_id) ds w) r =
     (if r = room_id then fold remove1 ds (sessions w room_id) else sessions w r)"
  by (induction ds arbitrary: w) (simp_all add: sessions_disconnect)

text \<open>The delivery loop in closed form: who is put on the list, and what is sent.\<close>

lemma send_each_eq:
  "send_each t exclude cs w =
     (filter (\<lambda>c. Some c \<noteq> exclude \<and> c \<in> broken w) cs,
      w\<lparr>sent := sent w @ map (\<lambda>c. (c, t)) (filter (\<lambda>c. Some c \<noteq> exclude \<and> c \<notin> broken w) cs)\<rparr>)"
proof (induction cs arbitrary: w)
  case Nil
  then show ?case by simp
next
  case (Cons c cs)
  show ?case
  proof (cases "Some c \<noteq> exclude")
    case False
    then show ?thesis using Cons.IH by simp
  next
    case True
    show ?thesis
    proof (cases "c \<in> broken w")
      case True
      with \<open>Some c \<noteq> exclude\<close> show ?thesis
        using Cons.IH [of w] by (simp add: send_text_def)
    next
      case False
      with \<open>Some c \<noteq> exclude\<close> show ?thesis
        using Cons.IH [of "w\<lparr>sent := sent w @ [(c, t)]\<rparr>"] by (simp add: send_text_def)
    qed
  qed
qed

lemma broadcast_no_empty:
  assumes "\<forall>r. active_connections w r \<noteq> Some []"
  shows "active_connections (broadcast room_id message exclude w) r \<noteq> Some []"
proof (cases "active_connections w room_id")
  case None
  then show ?thesis using assms by (simp add: broadcast_def)
next
  case (Some cs)
  then show ?thesis
    using assms
    by (simp add: broadcast_def Let_def send_each_eq fold_disconnect_no_empty)
qed

lemma apply_op_no_empty:
  assumes "\<forall>r. active_connections w r \<noteq> Some []"
  shows "active_connections (apply_op x w) r \<noteq> Some []"
  using assms
  by (cases x) (simp_all add: connect_no_empty disconnect_no_empty broadcast_no_empty)

lemma run_ops_no_empty:
  assumes "\<forall>r. active_connections w r \<noteq> Some []"
  shows "active_connections (run_ops ops w) r \<noteq> Some []"
  unfolding run_ops_def using assms
proof (induction ops arbitrary: w)
  case Nil
  then show ?case by simp
next
  case (Cons x ops)
  have "\<forall>r. active_connections (apply_op x w) r \<noteq> Some []"
    using Cons.prems apply_op_no_empty by blast
  then show ?case using Cons.IH by simp
qed

lemma connect_then_disconnect_only:
  assumes "room_id \<notin> dom (active_connections w)" and "fst (connect room_id ws w) = Inr ()"
  shows "active_connections (snd (connect room_id ws w)) room_id = Some [ws]"
    and "room_id \<notin> dom (active_connections (disconnect room_id ws (snd (connect room_id ws w))))"
  using assms
  by (auto simp: connect_def accept_def disconnect_def Let_def
      split: option.splits if_splits)

text \<open>
  C1. Start from a manager with no entry and apply any sequence of \<^verbatim>\<open>connect\<close>,
  \<^verbatim>\<open>disconnect\<close> and \<^verbatim>\<open>broadcast\<close> calls (with any transports failing in between).
  Afterwards a room id is a key of \<open>active_connections\<close> exactly when at least one
  session is registered for it. Moreover, in any such state, a \<^verbatim>\<open>connect\<close> that returns
  for a room without an entry creates the entry with that one member, and disconnecting
  the session again deletes the entry: no empty entry remains.
\<close>

theorem registry_entry_iff_session:
  assumes "active_connections w0 = Map.empty"
  shows "((room_id \<in> dom (active_connections (run_ops ops w0))) =
            (\<exists>s. s \<in> set (sessions (run_ops ops w0) room_id))) \<and>
         (r \<notin> dom (active_connections (run_ops ops w0)) \<longrightarrow>
          fst (connect r ws (run_ops ops w0)) = Inr () \<longrightarrow>
            active_connections (snd (connect r ws (run_ops ops w0))) r = Some [ws] \<and>
            r \<notin> dom (active_connections (disconnect r ws (snd (connect r ws (run_ops ops w0))))))"
proof -
  have inv: "active_connections (run_ops ops w0) room_id \<noteq> Some []"
    using run_ops_no_empty [of w0 ops room_id] assms by simp
  have "(room_id \<in> dom (active_connections (run_ops ops w0))) =
            (\<exists>s. s \<in> set (sessions (run_ops ops w0) room_id))"
  proof (cases "active_connections (run_ops ops w0) room_id")
    case None
    then show ?thesis by (simp add: sessions_def dom_def)
  next
    case (Some l)
    with inv have "l \<noteq> []" by simp
    then obtain x xs where "l = x # xs" by (cases l) auto
    with Some show ?thesis by (auto simp: sessions_def dom_def)
  qed
  then show ?thesis
    using connect_then_disconnect_only [of r "run_ops ops w0" ws] by blast
qed

theorem registry_entry_iff_session_witness:
  "active_connections fresh = Map.empty \<and>
   sessions (run_ops [Connect ''abcd1234'' 1, Connect ''abcd1234'' 2, Transports {2},
                      Broadcast ''abcd1234'' (JStr ''hi'') None] fresh) ''abcd1234'' = [1] \<and>
   ''abcd1234'' \<in> dom (active_connections
        (run_ops [Connect ''abcd1234'' 1, Connect ''abcd1234'' 2, Transports {2},
                  Broadcast ''abcd1234'' (JStr ''hi'') None] fresh)) \<and>
   ''other'' \<notin> dom (active_connections
        (run_ops [Connect ''abcd1234'' 1, Connect ''abcd1234'' 2, Transports {2},
                  Broadcast ''abcd1234'' (JStr ''hi'') None] fresh)) \<and>
   fst (connect ''other'' 3
        (run_ops [Connect ''abcd1234'' 1, Connect ''abcd1234'' 2, Transports {2},
                  Broadcast ''abcd1234'' (JStr ''hi'') None] fresh)) = Inr () \<and>
   ''other'' \<notin> dom (active_connections (disconnect ''other'' 3 (snd (connect ''other'' 3
        (run_ops [Connect ''abcd1234'' 1, Connect ''abcd1234'' 2, Transports {2},
                  Broadcast ''abcd1234'' (JStr ''hi'') None] fresh)))))"
  using registry_entry_iff_session [of fresh "''abcd1234''"
      "[Connect ''abcd1234'' 1, Connect ''abcd1234'' 2, Transports {2},
        Broadcast ''abcd1234'' (JStr ''hi'') None]" "''other''" 3]
  by (simp add: run_ops_def fresh_def connect_def accept_def broadcast_def send_text_def
      disconnect_def sessions_def json_dumps_def Let_def)

section \<open>Properties of broadcast\<close>

lemma broadcast_eq:
  assumes "active_connections w room_id = Some cs"
  shows "broadcast room_id message exclude w =
           fold (disconnect room_id) (filter (\<lambda>c. Some c \<noteq> exclude \<and> c \<in> broken w) cs)
             (w\<lparr>sent := sent w @ map (\<lambda>c. (c, json_dumps message))
                                    (filter (\<lambda>c. Some c \<noteq> exclude \<and> c \<notin> broken w) cs)\<rparr>)"
  using assms by (simp add: broadcast_def Let_def send_each_eq)

lemma delivered_broadcast:
  "delivered w (broadcast room_id message exclude w) =
     map (\<lambda>c. (c, json_dumps message))
       (filter (\<lambda>c. Some c \<noteq> exclude \<and> c \<notin> broken w) (sessions w room_id))"
proof (cases "active_connections w room_id")
  case None
  then show ?thesis by (simp add: broadcast_def delivered_def sessions_def)
next
  case (Some cs)
  then show ?thesis by (simp add: broadcast_eq delivered_def sessions_def)
qed

lemma sent_broadcast:
  "sent (broadcast room_id message exclude w) =
     sent w @ delivered w (broadcast room_id message exclude w)"
proof (cases "active_connections w room_id")
  case None
  then show ?thesis by (simp add: broadcast_def delivered_def)
next
  case (Some cs)
  then show ?thesis by (simp add: broadcast_eq delivered_def)
qed

lemma sessions_broadcast:
  "sessions (broadcast room_id message exclude w) r =
     (if r = room_id
      then fold remove1 (filter (\<lambda>c. Some c \<noteq> exclude \<and> c \<in> broken w) (sessions w room_id))
             (sessions w room_id)
      else sessions w r)"
proof (cases "active_connections w room_id")
  case None
  then show ?thesis by (simp add: broadcast_def sessions_def)
next
  case (Some cs)
  then show ?thesis
    by (simp add: broadcast_eq sessions_fold_disconnect) (simp add: sessions_def)
qed

lemma broadcast_fields [simp]:
  "broken (broadcast room_id message exclude w) = broken w"
  "rooms (broadcast room_id message exclude w) = rooms w"
  "db_down (broadcast room_id message exclude w) = db_down w"
  "accepted (broadcast room_id message exclude w) = accepted w"
  "closes (broadcast room_id message exclude w) = closes w"
  "update_calls (broadcast room_id message exclude w) = update_calls w"
  by (cases "active_connections w room_id"; simp add: broadcast_def Let_def send_each_eq)+

lemma mset_fold_remove1: "mset (fold remove1 ds l) = mset l - mset ds"
  by (induction ds arbitrary: l) simp_all

lemma all_occurrences_removed:
  assumes "P k"
  shows "k \<notin> set (fold remove1 (filter P l) l)"
proof -
  have "count (mset (fold remove1 (filter P l) l)) k = 0"
    using assms by (simp add: mset_fold_remove1)
  then show ?thesis
    by (simp add: count_eq_zero_iff)
qed

text \<open>
  C4. A broadcast that excludes a session appends its deliveries to the log of sent
  frames, and none of them, whatever the frame, goes to the excluded session. Nothing is
  assumed about the room's members or about which transports are down.
\<close>

theorem broadcast_skips_excluded:
  "sent (broadcast room_id message (Some sender) w) =
     sent w @ delivered w (broadcast room_id message (Some sender) w) \<and>
   (sender, t) \<notin> set (delivered w (broadcast room_id message (Some sender) w))"
  using sent_broadcast [of room_id message "Some sender" w]
  by (auto simp: delivered_broadcast)

theorem broadcast_skips_excluded_witness:
  "delivered (run_ops [Connect ''abcd1234'' 1, Connect ''abcd1234'' 2, Connect ''abcd1234'' 3] fresh)
     (broadcast ''abcd1234'' (JStr ''hi'') (Some 1)
        (run_ops [Connect ''abcd1234'' 1, Connect ''abcd1234'' 2, Connect ''abcd1234'' 3] fresh))
     = [(2, Json (JStr ''hi'')), (3, Json (JStr ''hi''))] \<and>
   (1, Json (JStr ''hi'')) \<notin> set (delivered
     (run_ops [Connect ''abcd1234'' 1, Connect ''abcd1234'' 2, Connect ''abcd1234'' 3] fresh)
     (broadcast ''abcd1234'' (JStr ''hi'') (Some 1)
        (run_ops [Connect ''abcd1234'' 1, Connect ''abcd1234'' 2, Connect ''abcd1234'' 3] fresh)))"
  using broadcast_skips_excluded [of "''abcd1234''" "JStr ''hi''" 1
      "run_ops [Connect ''abcd1234'' 1, Connect ''abcd1234'' 2, Connect ''abcd1234'' 3] fresh"
      "Json (JStr ''hi'')"]
  by (simp add: run_ops_def fresh_def connect_def accept_def broadcast_def send_text_def
      delivered_def json_dumps_def Let_def)

text \<open>
  C2. In a broadcast to a room in which the send to a member \<open>k\<close> fails (\<open>k\<close> is not
  the excluded session and its transport is down), every member that is not excluded and
  whose own transport is up is delivered the serialised message, and after the cleanup
  \<open>k\<close> is no longer registered for the room; \<open>k\<close> itself is delivered nothing.
\<close>

theorem broadcast_failure_isolated:
  assumes "active_connections w room_id = Some connections"
    and "k \<in> set connections" and "Some k \<noteq> exclude" and "k \<in> broken w"
  shows "(\<forall>p \<in> set connections. Some p \<noteq> exclude \<and> p \<notin> broken w \<longrightarrow>
            (p, json_dumps message) \<in> set (delivered w (broadcast room_id message exclude w))) \<and>
         k \<notin> set (sessions (broadcast room_id message exclude w) room_id) \<and>
         (k, json_dumps message) \<notin> set (delivered w (broadcast room_id message exclude w))"
proof -
  have s: "sessions w room_id = connections"
    using assms(1) by (simp add: sessions_def)
  have "k \<notin> set (sessions (broadcast room_id message exclude w) room_id)"
    using assms(3,4) all_occurrences_removed [of "\<lambda>c. Some c \<noteq> exclude \<and> c \<in> broken w" k connections]
    by (simp add: sessions_broadcast s)
  then show ?thesis
    using assms(4) by (auto simp: delivered_broadcast s)
qed

theorem broadcast_failure_isolated_witness:
  "active_connections
     (run_ops [Connect ''abcd1234'' 1, Connect ''abcd1234'' 2, Connect ''abcd1234'' 3,
               Transports {2}] fresh) ''abcd1234'' = Some [1, 2, 3] \<and>
   (2::nat) \<in> set [1, 2, 3] \<and> Some (2::nat) \<noteq> Some 1 \<and>
   (2::nat) \<in> broken (run_ops [Connect ''abcd1234'' 1, Connect ''abcd1234'' 2,
                               Connect ''abcd1234'' 3, Transports {2}] fresh) \<and>
   (3, json_dumps (JStr ''hi'')) \<in> set (delivered
     (run_ops [Connect ''abcd1234'' 1, Connect ''abcd1234'' 2, Connect ''abcd1234'' 3,
               Transports {2}] fresh)
     (broadcast ''abcd1234'' (JStr ''hi'') (Some 1)
        (run_ops [Connect ''abcd1234'' 1, Connect ''abcd1234'' 2, Connect ''abcd1234'' 3,
                  Transports {2}] fresh))) \<and>
   sessions (broadcast ''abcd1234'' (JStr ''hi'') (Some 1)
        (run_ops [Connect ''abcd1234'' 1, Connect ''abcd1234'' 2, Connect ''abcd1234'' 3,
                  Transports {2}] fresh)) ''abcd1234'' = [1, 3]"
  using broadcast_failure_isolated [of
      "run_ops [Connect ''abcd1234'' 1, Connect ''abcd1234'' 2, Connect ''abcd1234'' 3,
                Transports {2}] fresh"
      "''abcd1234''" "[1, 2, 3]" 2 "Some 1" "JStr ''hi''"]
  by (simp add: run_ops_def fresh_def connect_def accept_def broadcast_def send_text_def
      disconnect_def sessions_def delivered_def json_dumps_def Let_def)

section \<open>Repeated connects and disconnects\<close>

lemma fold_remove1_distinct: "distinct l \<Longrightarrow> distinct (fold remove1 ds l)"
  by (induction ds arbitrary: l) simp_all

lemma fold_remove1_subset: "set (fold remove1 ds l) \<subseteq> set l"
proof (induction ds arbitrary: l)
  case Nil
  then show ?case by simp
next
  case (Cons d ds)
  have "set (fold remove1 ds (remove1 d l)) \<subseteq> set (remove1 d l)"
    by (rule Cons.IH)
  then show ?case using set_remove1_subset [of d l] by auto
qed

lemma distinct_count_le_1: "distinct l \<Longrightarrow> count_list l x \<le> 1"
  by (induction l) auto

lemma well_registered_empty:
  "active_connections w = Map.empty \<Longrightarrow> well_registered w"
  by (simp add: well_registered_def sessions_def)

lemma well_registered_connect:
  assumes "well_registered w"
  shows "well_registered (snd (connect room_id ws w))"
proof -
  consider (returns) "ws \<notin> set (accepted w)"
      "accepted (snd (connect room_id ws w)) = accepted w @ [ws]"
      "\<forall>r. sessions (snd (connect room_id ws w)) r =
            (if r = room_id then sessions w room_id @ [ws] else sessions w r)"
    | (raises) "snd (connect room_id ws w) = w"
    using connect_cases [of room_id ws w] by auto
  then show ?thesis
  proof cases
    case returns
    have "ws \<notin> set (sessions w room_id)"
      using assms returns(1) unfolding well_registered_def by blast
    then show ?thesis
      using assms returns(2,3) unfolding well_registered_def by auto
  next
    case raises
    then show ?thesis using assms by simp
  qed
qed

lemma well_registered_disconnect:
  assumes "well_registered w"
  shows "well_registered (disconnect room_id ws w)"
  using assms set_remove1_subset [of ws "sessions w room_id"]
  unfolding well_registered_def
  by (auto simp: sessions_disconnect)

lemma well_registered_broadcast:
  assumes "well_registered w"
  shows "well_registered (broadcast room_id message exclude w)"
  using assms
    fold_remove1_subset [of "filter (\<lambda>c. Some c \<noteq> exclude \<and> c \<in> broken w) (sessions w room_id)"
                            "sessions w room_id"]
  unfolding well_registered_def
  by (auto simp: sessions_broadcast fold_remove1_distinct)

lemma well_registered_apply_op:
  assumes "well_registered w"
  shows "well_registered (apply_op x w)"
proof (cases x)
  case (Connect room_id ws)
  then show ?thesis using assms by (simp add: well_registered_connect)
next
  case (Disconnect room_id ws)
  then show ?thesis using assms by (simp add: well_registered_disconnect)
next
  case (Broadcast room_id message exclude)
  then show ?thesis using assms by (simp add: well_registered_broadcast)
next
  case (Transports down)
  then show ?thesis using assms by (simp add: well_registered_def sessions_def)
qed

lemma well_registered_run_ops:
  assumes "well_registered w"
  shows "well_registered (run_ops ops w)"
  unfolding run_ops_def using assms
proof (induction ops arbitrary: w)
  case Nil
  then show ?case by simp
next
  case (Cons x ops)
  have "well_registered (apply_op x w)"
    using Cons.prems by (rule well_registered_apply_op)
  then show ?case using Cons.IH by simp
qed

text \<open>
  C9, as the claim states it, fails. A session becomes a member only through
  \<^verbatim>\<open>connect\<close>, which accepts the socket first; a second \<^verbatim>\<open>connect\<close> for the same
  socket raises in \<^verbatim>\<open>accept\<close>, before the append, so the session is still registered
  once, not twice.
\<close>

theorem reconnect_counterexample:
  "(1::nat) \<in> set (sessions (run_ops [Connect ''abcd1234'' 1] fresh) ''abcd1234'') \<and>
   fst (connect ''abcd1234'' 1 (run_ops [Connect ''abcd1234'' 1] fresh)) = Inl RuntimeError \<and>
   sessions (snd (connect ''abcd1234'' 1 (run_ops [Connect ''abcd1234'' 1] fresh))) ''abcd1234''
     = [1]"
  by (simp add: run_ops_def fresh_def connect_def accept_def sessions_def Let_def)

text \<open>
  C9, amended. The members of a room are kept in a list, but in every state the
  manager reaches from an empty registry no session is registered twice: \<^verbatim>\<open>connect\<close>
  for a session that is already a member raises and leaves the state as it was, the
  session occurs exactly once in the room's list, and one \<^verbatim>\<open>disconnect\<close> removes it
  from the room altogether; the room's entry is deleted when it was the only member.
\<close>

theorem reconnect_rejected:
  assumes "active_connections w0 = Map.empty"
    and "ws \<in> set (sessions (run_ops ops w0) room_id)"
  shows "(\<exists>e. connect room_id ws (run_ops ops w0) = (Inl e, run_ops ops w0)) \<and>
         count_list (sessions (run_ops ops w0) room_id) ws = 1 \<and>
         ws \<notin> set (sessions (disconnect room_id ws (run_ops ops w0)) room_id) \<and>
         (sessions (run_ops ops w0) room_id = [ws] \<longrightarrow>
            room_id \<notin> dom (active_connections (disconnect room_id ws (run_ops ops w0))))"
proof -
  let ?w = "run_ops ops w0"
  have wr: "well_registered ?w"
    using assms(1) by (intro well_registered_run_ops well_registered_empty)
  then have acc: "ws \<in> set (accepted ?w)" and dis: "distinct (sessions ?w room_id)"
    using assms(2) unfolding well_registered_def by blast+
  have a: "\<exists>e. connect room_id ws ?w = (Inl e, ?w)"
    using acc by (rule accepted_raises)
  have "count_list (sessions ?w room_id) ws \<le> 1"
    using dis by (rule distinct_count_le_1)
  moreover have "count_list (sessions ?w room_id) ws \<noteq> 0"
    using assms(2) by (simp add: count_list_0_iff)
  ultimately have b: "count_list (sessions ?w room_id) ws = 1" by simp
  have c: "ws \<notin> set (sessions (disconnect room_id ws ?w) room_id)"
    using dis by (simp add: sessions_disconnect)
  have d: "sessions ?w room_id = [ws] \<longrightarrow>
            room_id \<notin> dom (active_connections (disconnect room_id ws ?w))"
    by (auto simp: disconnect_def sessions_def Let_def split: option.splits)
  show ?thesis using a b c d by blast
qed

theorem reconnect_rejected_witness:
  "active_connections fresh = Map.empty \<and>
   (1::nat) \<in> set (sessions (run_ops [Connect ''abcd1234'' 1] fresh) ''abcd1234'') \<and>
   sessions (run_ops [Connect ''abcd1234'' 1] fresh) ''abcd1234'' = [1] \<and>
   count_list (sessions (run_ops [Connect ''abcd1234'' 1] fresh) ''abcd1234'') 1 = 1 \<and>
   (1::nat) \<notin> set (sessions (disconnect ''abcd1234'' 1
                      (run_ops [Connect ''abcd1234'' 1] fresh)) ''abcd1234'') \<and>
   ''abcd1234'' \<notin> dom (active_connections (disconnect ''abcd1234'' 1
                      (run_ops [Connect ''abcd1234'' 1] fresh)))"
  using reconnect_rejected [of fresh 1 "[Connect ''abcd1234'' 1]" "''abcd1234''"]
  by (simp add: run_ops_def fresh_def connect_def accept_def sessions_def Let_def)

lemma disconnect_absent:
  assumes "active_connections w room_id \<noteq> Some []" and "ws \<notin> set (sessions w room_id)"
  shows "disconnect room_id ws w = w"
  using assms
  by (auto simp: disconnect_def sessions_def Let_def map_upd_triv split: option.splits)

lemma disconnect_twice:
  assumes "distinct (sessions w room_id)"
  shows "disconnect room_id ws (disconnect room_id ws w) = disconnect room_id ws w"
proof -
  have "ws \<notin> set (sessions (disconnect room_id ws w) room_id)"
    using assms by (simp add: sessions_disconnect)
  moreover have "active_connections (disconnect room_id ws w) room_id \<noteq> Some []"
    by (auto simp: disconnect_def Let_def split: option.splits)
  ultimately show ?thesis by (rule disconnect_absent [rotated])
qed

text \<open>
  C8. In every state the manager reaches from an empty registry, \<^verbatim>\<open>disconnect\<close> of a
  session that is not a member of the room leaves the whole state as it was
  (\<^verbatim>\<open>disconnect\<close> has no raising branch), and a second \<^verbatim>\<open>disconnect\<close> of the same
  session changes nothing more than the first did. In any state, whenever the removal
  leaves the room without members, the room's entry is deleted.
\<close>

theorem disconnect_idempotent:
  assumes "active_connections w0 = Map.empty"
  shows "(other \<notin> set (sessions (run_ops ops w0) room_id) \<longrightarrow>
            disconnect room_id other (run_ops ops w0) = run_ops ops w0) \<and>
         disconnect room_id ws (disconnect room_id ws (run_ops ops w0))
           = disconnect room_id ws (run_ops ops w0) \<and>
         (remove1 ws (sessions w room_id) = [] \<longrightarrow>
            active_connections (disconnect room_id ws w) room_id = None)"
proof -
  have "active_connections (run_ops ops w0) room_id \<noteq> Some []"
    using run_ops_no_empty [of w0 ops room_id] assms by simp
  then have a: "other \<notin> set (sessions (run_ops ops w0) room_id) \<longrightarrow>
            disconnect room_id other (run_ops ops w0) = run_ops ops w0"
    using disconnect_absent by blast
  have "well_registered (run_ops ops w0)"
    using assms by (intro well_registered_run_ops well_registered_empty)
  then have "distinct (sessions (run_ops ops w0) room_id)"
    unfolding well_registered_def by blast
  then have b: "disconnect room_id ws (disconnect room_id ws (run_ops ops w0))
           = disconnect room_id ws (run_ops ops w0)"
    by (rule disconnect_twice)
  have c: "remove1 ws (sessions w room_id) = [] \<longrightarrow>
            active_connections (disconnect room_id ws w) room_id = None"
    by (auto simp: disconnect_def sessions_def Let_def remove1_idem split: option.splits)
  show ?thesis using a b c by blast
qed

theorem disconnect_idempotent_witness:
  "active_connections fresh = Map.empty \<and>
   sessions (run_ops [Connect ''abcd1234'' 1, Connect ''abcd1234'' 3] fresh) ''abcd1234'' = [1, 3] \<and>
   (2::nat) \<notin> set (sessions (run_ops [Connect ''abcd1234'' 1, Connect ''abcd1234'' 3] fresh)
                      ''abcd1234'') \<and>
   disconnect ''abcd1234'' 2 (run_ops [Connect ''abcd1234'' 1, Connect ''abcd1234'' 3] fresh)
     = run_ops [Connect ''abcd1234'' 1, Connect ''abcd1234'' 3] fresh \<and>
   sessions (disconnect ''abcd1234'' 1 (disconnect ''abcd1234'' 1
      (run_ops [Connect ''abcd1234'' 1, Connect ''abcd1234'' 3] fresh))) ''abcd1234'' = [3] \<and>
   disconnect ''abcd1234'' 1 (disconnect ''abcd1234'' 1
      (run_ops [Connect ''abcd1234'' 1, Connect ''abcd1234'' 3] fresh))
     = disconnect ''abcd1234'' 1 (run_ops [Connect ''abcd1234'' 1, Connect ''abcd1234'' 3] fresh) \<and>
   remove1 1 (sessions (run_ops [Connect ''abcd1234'' 1] fresh) ''abcd1234'') = [] \<and>
   active_connections (disconnect ''abcd1234'' 1 (run_ops [Connect ''abcd1234'' 1] fresh))
     ''abcd1234'' = None"
  using disconnect_idempotent [of fresh 2
      "[Connect ''abcd1234'' 1, Connect ''abcd1234'' 3]" "''abcd1234''" 1
      "run_ops [Connect ''abcd1234'' 1] fresh"]
  by (simp add: run_ops_def fresh_def connect_def accept_def disconnect_def sessions_def Let_def)

section \<open>Properties of the receive loop\<close>

lemma update_room_code_eq:
  "update_room_code room_id c w =
     (if db_down w then (Inl SQLAlchemyError, w\<lparr>update_calls := update_calls w @ [(room_id, c)]\<rparr>)
      else if rooms w room_id = None
           then (Inr None, w\<lparr>update_calls := update_calls w @ [(room_id, c)]\<rparr>)
           else (Inr (Some c), w\<lparr>update_calls := update_calls w @ [(room_id, c)],
                                    rooms := (rooms w)(room_id \<mapsto> c)\<rparr>))"
  by (auto simp: update_room_code_def get_room_def Let_def split: option.splits)

lemma delivered_shift:
  "sent w1 = sent w \<Longrightarrow> delivered w w' = delivered w1 w'"
  by (simp add: delivered_def)

text \<open>
  What a \<^verbatim>\<open>code_update\<close> turn delivers when the store update succeeds: one frame to
  every member of the room other than the sender whose transport is up, carrying the
  code and the timestamp of the validated message (an absent timestamp as \<^verbatim>\<open>null\<close>).
\<close>

lemma code_update_delivers_parsed:
  assumes "parse_message V data = Inr m"
    and "msg_type m = ''code_update''" and "msg_code m = Some c"
    and "\<not> db_down w" and "rooms w room_id \<noteq> None"
  shows "fst (websocket_endpoint_message V ws room_id data w) = Running"
    and "delivered w (snd (websocket_endpoint_message V ws room_id data w)) =
           map (\<lambda>p. (p, json_dumps (JObj [(''type'', JStr ''code_update''),
                                           (''code'', JStr c),
                                           (''timestamp'', case msg_timestamp m of
                                                             None \<Rightarrow> JNull | Some t \<Rightarrow> JInt t)])))
             (filter (\<lambda>p. p \<noteq> ws \<and> p \<notin> broken w) (sessions w room_id))"
proof -
  let ?msg = "JObj [(''type'', JStr ''code_update''), (''code'', JStr c),
                    (''timestamp'', case msg_timestamp m of None \<Rightarrow> JNull | Some t \<Rightarrow> JInt t)]"
  let ?w1 = "w\<lparr>update_calls := update_calls w @ [(room_id, c)],
               rooms := (rooms w)(room_id \<mapsto> c)\<rparr>"
  have r: "websocket_endpoint_message V ws room_id data w =
             (Running, broadcast room_id ?msg (Some ws) ?w1)"
  proof -
    from assms(5) obtain old where "rooms w room_id = Some old" by blast
    then show ?thesis
      using assms(1-4)
      by (simp add: websocket_endpoint_message_def receive_body_def handle_code_update_def
          update_room_code_eq)
  qed
  have "delivered w (broadcast room_id ?msg (Some ws) ?w1) =
          delivered ?w1 (broadcast room_id ?msg (Some ws) ?w1)"
    by (rule delivered_shift) simp
  also have "\<dots> = map (\<lambda>p. (p, json_dumps ?msg))
                    (filter (\<lambda>p. p \<noteq> ws \<and> p \<notin> broken w) (sessions w room_id))"
    by (simp add: delivered_broadcast sessions_def)
  finally show "delivered w (snd (websocket_endpoint_message V ws room_id data w)) =
      map (\<lambda>p. (p, json_dumps ?msg)) (filter (\<lambda>p. p \<noteq> ws \<and> p \<notin> broken w) (sessions w room_id))"
    by (simp add: r)
  show "fst (websocket_endpoint_message V ws room_id data w) = Running"
    by (simp add: r)
qed

lemma coercing_types_simps:
  "str_validator coercing_types j = (case j of JStr s \<Rightarrow> Some s | _ \<Rightarrow> None)"
  "int_validator coercing_types j =
     (case j of JInt i \<Rightarrow> Some i | JStr s \<Rightarrow> int_of_digits s | _ \<Rightarrow> None)"
  by (simp_all add: coercing_types_def)

lemma int_of_digits_42: "int_of_digits ''42'' = Some 42"
  by (simp add: int_of_digits_def digit_def)

text \<open>
  C3, as the claim states it, fails. The schema declares the timestamp as an integer
  and converts what it accepts: a sender whose timestamp is the string \<^verbatim>\<open>"42"\<close> has a
  valid \<^verbatim>\<open>code_update\<close> with its code present, and the other session is delivered the
  number \<^verbatim>\<open>42\<close>, not the sender's value.
\<close>

theorem coerced_timestamp_counterexample:
  "map_of [(''type'', JStr ''code_update''), (''code'', JStr ''x=1''),
           (''timestamp'', JStr ''42'')] ''timestamp'' = Some (JStr ''42'') \<and>
   delivered
     (run_events coercing_types
        [TableWritten [''abcd1234'' \<mapsto> ''''], Open 1 ''abcd1234'', Open 2 ''abcd1234''] fresh)
     (snd (websocket_endpoint_message coercing_types 1 ''abcd1234''
        (Json (JObj [(''type'', JStr ''code_update''), (''code'', JStr ''x=1''),
                     (''timestamp'', JStr ''42'')]))
        (run_events coercing_types
           [TableWritten [''abcd1234'' \<mapsto> ''''], Open 1 ''abcd1234'', Open 2 ''abcd1234''] fresh)))
     = [(2, Json (JObj [(''type'', JStr ''code_update''), (''code'', JStr ''x=1''),
                        (''timestamp'', JInt 42)]))] \<and>
   JInt 42 \<noteq> JStr ''42''"
proof -
  have p: "parse_message coercing_types
     (Json (JObj [(''type'', JStr ''code_update''), (''code'', JStr ''x=1''),
                  (''timestamp'', JStr ''42'')]))
     = Inr \<lparr>msg_type = ''code_update'', msg_code = Some ''x=1'', msg_timestamp = Some 42,
            msg_message = None, msg_roomId = None\<rparr>"
    by (simp add: parse_message_def WebSocketMessage_init_def required_field_def
        optional_field_def coercing_types_simps int_of_digits_42)
  show ?thesis
    using code_update_delivers_parsed(2) [OF p, of "''x=1''"
      "run_events coercing_types
         [TableWritten [''abcd1234'' \<mapsto> ''''], Open 1 ''abcd1234'', Open 2 ''abcd1234''] fresh"
      "''abcd1234''" 1]
    by (simp add: run_events_def fresh_def websocket_endpoint_open_def room_exists_def
      connect_def accept_def send_initial_state_def get_room_def send_text_def
      json_dumps_def sessions_def Let_def)
qed

text \<open>
  C3, amended. Take a received JSON object that validates to a \<^verbatim>\<open>code_update\<close>
  message with its code present, with the database up and the room in the table, so
  that the store update succeeds. Then the loop goes on and every member of the room
  other than the sender whose transport is up is delivered exactly one frame, a
  \<^verbatim>\<open>code_update\<close> carrying the code and timestamp of the validated message. When the
  sender's code is a JSON string and its timestamp a JSON integer (both returned as
  they are by the validators), \<^verbatim>\<open>null\<close> or absent, these are the sender's own values,
  unchanged: the delivered object holds the object's \<^verbatim>\<open>code\<close> item and its
  \<^verbatim>\<open>timestamp\<close> item (\<^verbatim>\<open>null\<close> when there is none).
\<close>

theorem code_update_echoed:
  assumes "WebSocketMessage_init V d = Inr m"
    and "msg_type m = ''code_update''" and "msg_code m = Some c"
    and "\<not> db_down w" and "rooms w room_id \<noteq> None"
  shows "fst (websocket_endpoint_message V ws room_id (Json (JObj d)) w) = Running \<and>
         delivered w (snd (websocket_endpoint_message V ws room_id (Json (JObj d)) w)) =
           map (\<lambda>p. (p, json_dumps (JObj [(''type'', JStr ''code_update''),
                                           (''code'', JStr c),
                                           (''timestamp'', case msg_timestamp m of
                                                             None \<Rightarrow> JNull | Some t \<Rightarrow> JInt t)])))
             (filter (\<lambda>p. p \<noteq> ws \<and> p \<notin> broken w) (sessions w room_id)) \<and>
         (map_of d ''code'' = Some (JStr c') \<longrightarrow> str_validator V (JStr c') = Some c' \<longrightarrow>
          (map_of d ''timestamp'' = None \<or> map_of d ''timestamp'' = Some JNull \<or>
           map_of d ''timestamp'' = Some (JInt t) \<and> int_validator V (JInt t) = Some t) \<longrightarrow>
          delivered w (snd (websocket_endpoint_message V ws room_id (Json (JObj d)) w)) =
            map (\<lambda>p. (p, json_dumps (JObj [(''type'', JStr ''code_update''),
                                            (''code'', JStr c'),
                                            (''timestamp'', case map_of d ''timestamp'' of
                                                              None \<Rightarrow> JNull | Some j \<Rightarrow> j)])))
              (filter (\<lambda>p. p \<noteq> ws \<and> p \<notin> broken w) (sessions w room_id)) \<and>
          (\<forall>p \<in> set (sessions w room_id). p \<noteq> ws \<and> p \<notin> broken w \<longrightarrow>
             (p, json_dumps (JObj [(''type'', JStr ''code_update''),
                                   (''code'', JStr c'),
                                   (''timestamp'', case map_of d ''timestamp'' of
                                                     None \<Rightarrow> JNull | Some j \<Rightarrow> j)]))
               \<in> set (delivered w
                        (snd (websocket_endpoint_message V ws room_id (Json (JObj d)) w)))))"
proof -
  let ?R = "websocket_endpoint_message V ws room_id (Json (JObj d)) w"
  let ?F = "filter (\<lambda>p. p \<noteq> ws \<and> p \<notin> broken w) (sessions w room_id)"
  have p: "parse_message V (Json (JObj d)) = Inr m"
    using assms(1) by (simp add: parse_message_def)
  note run = code_update_delivers_parsed(1) [OF p assms(2-5), of ws]
  note del = code_update_delivers_parsed(2) [OF p assms(2-5), of ws]
  have typed: "delivered w (snd ?R) =
            map (\<lambda>p. (p, json_dumps (JObj [(''type'', JStr ''code_update''),
                                            (''code'', JStr c'),
                                            (''timestamp'', case map_of d ''timestamp'' of
                                                              None \<Rightarrow> JNull | Some j \<Rightarrow> j)]))) ?F"
    if code: "map_of d ''code'' = Some (JStr c')" and sv: "str_validator V (JStr c') = Some c'"
      and ts: "map_of d ''timestamp'' = None \<or> map_of d ''timestamp'' = Some JNull \<or>
           map_of d ''timestamp'' = Some (JInt t) \<and> int_validator V (JInt t) = Some t"
  proof -
    have "optional_field (str_validator V) d ''code'' = Some (Some c')"
      using code sv by (simp add: optional_field_def)
    then have "msg_code m = Some c'"
      using assms(1) by (auto simp: WebSocketMessage_init_def split: option.splits)
    then have c: "c = c'" using assms(3) by simp
    have "optional_field (int_validator V) d ''timestamp'' =
            Some (case map_of d ''timestamp'' of None \<Rightarrow> None | Some JNull \<Rightarrow> None
                  | Some (JInt i) \<Rightarrow> Some i | Some _ \<Rightarrow> None)"
      using ts by (auto simp: optional_field_def)
    then have "msg_timestamp m = (case map_of d ''timestamp'' of None \<Rightarrow> None
                  | Some JNull \<Rightarrow> None | Some (JInt i) \<Rightarrow> Some i | Some _ \<Rightarrow> None)"
      using assms(1) by (auto simp: WebSocketMessage_init_def split: option.splits)
    then have "(case msg_timestamp m of None \<Rightarrow> JNull | Some t \<Rightarrow> JInt t)
                 = (case map_of d ''timestamp'' of None \<Rightarrow> JNull | Some j \<Rightarrow> j)"
      using ts by auto
    then show ?thesis using del c by simp
  qed
  show ?thesis
    using run del typed by auto
qed

theorem code_update_echoed_witness:
  "WebSocketMessage_init exact_types
     [(''type'', JStr ''code_update''), (''code'', JStr ''x=1''), (''timestamp'', JInt 42)]
     = Inr \<lparr>msg_type = ''code_update'', msg_code = Some ''x=1'', msg_timestamp = Some 42,
            msg_message = None, msg_roomId = None\<rparr> \<and>
   \<not> db_down (run_events exact_types
        [TableWritten [''abcd1234'' \<mapsto> ''''], Open 1 ''abcd1234'', Open 2 ''abcd1234''] fresh) \<and>
   rooms (run_events exact_types
        [TableWritten [''abcd1234'' \<mapsto> ''''], Open 1 ''abcd1234'', Open 2 ''abcd1234''] fresh)
      ''abcd1234'' \<noteq> None \<and>
   map_of [(''type'', JStr ''code_update''), (''code'', JStr ''x=1''), (''timestamp'', JInt 42)]
      ''code'' = Some (JStr ''x=1'') \<and>
   str_validator exact_types (JStr ''x=1'') = Some ''x=1'' \<and>
   map_of [(''type'', JStr ''code_update''), (''code'', JStr ''x=1''), (''timestamp'', JInt 42)]
      ''timestamp'' = Some (JInt 42) \<and>
   int_validator exact_types (JInt 42) = Some 42 \<and>
   sessions (run_events exact_types
        [TableWritten [''abcd1234'' \<mapsto> ''''], Open 1 ''abcd1234'', Open 2 ''abcd1234''] fresh)
      ''abcd1234'' = [1, 2] \<and>
   delivered
     (run_events exact_types
        [TableWritten [''abcd1234'' \<mapsto> ''''], Open 1 ''abcd1234'', Open 2 ''abcd1234''] fresh)
     (snd (websocket_endpoint_message exact_types 1 ''abcd1234''
        (Json (JObj [(''type'', JStr ''code_update''), (''code'', JStr ''x=1''),
                     (''timestamp'', JInt 42)]))
        (run_events exact_types
           [TableWritten [''abcd1234'' \<mapsto> ''''], Open 1 ''abcd1234'', Open 2 ''abcd1234''] fresh)))
     = [(2, Json (JObj [(''type'', JStr ''code_update''), (''code'', JStr ''x=1''),
                        (''timestamp'', JInt 42)]))]"
  using code_update_echoed [of exact_types
      "[(''type'', JStr ''code_update''), (''code'', JStr ''x=1''), (''timestamp'', JInt 42)]"
      "\<lparr>msg_type = ''code_update'', msg_code = Some ''x=1'', msg_timestamp = Some 42,
        msg_message = None, msg_roomId = None\<rparr>"
      "''x=1''"
      "run_events exact_types
         [TableWritten [''abcd1234'' \<mapsto> ''''], Open 1 ''abcd1234'', Open 2 ''abcd1234''] fresh"
      "''abcd1234''" 1 "''x=1''" 42]
  by (simp add: run_events_def fresh_def websocket_endpoint_open_def room_exists_def
      connect_def accept_def send_initial_state_def get_room_def send_text_def
      json_dumps_def sessions_def WebSocketMessage_init_def
      required_field_def optional_field_def exact_types_def Let_def)

lemma send_text_up:
  "ws \<notin> broken w \<Longrightarrow> send_text ws t w = (Inr (), w\<lparr>sent := sent w @ [(ws, t)]\<rparr>)"
  by (simp add: send_text_def)

lemma send_text_down:
  "ws \<in> broken w \<Longrightarrow> send_text ws t w = (Inl TransportError, w)"
  by (simp add: send_text_def)

lemma reply_turn:
  assumes "receive_body V ws room_id data w = send_text ws t w"
  shows "websocket_endpoint_message V ws room_id data w =
           (if ws \<in> broken w then (Finished, disconnect room_id ws w)
            else (Running, w\<lparr>sent := sent w @ [(ws, t)]\<rparr>))"
  using assms by (simp add: websocket_endpoint_message_def send_text_def)

lemma delivered_self [simp]: "delivered w w = []"
  by (simp add: delivered_def)

lemma delivered_disconnect [simp]: "delivered w (disconnect room_id ws w) = []"
  by (simp add: delivered_def)

lemma absent_code_is_None:
  assumes "map_of d ''code'' = None \<or> map_of d ''code'' = Some JNull"
    and "WebSocketMessage_init V d = Inr m"
  shows "msg_code m = None"
proof -
  have "optional_field (str_validator V) d ''code'' = Some None"
    using assms(1) by (auto simp: optional_field_def)
  then show ?thesis
    using assms(2)
    by (auto simp: WebSocketMessage_init_def split: option.splits)
qed

text \<open>
  C6. Take a received JSON object without a \<^verbatim>\<open>code\<close> item that validates to a message
  of type \<^verbatim>\<open>code_update\<close>. Handling it never calls \<^verbatim>\<open>update_room_code\<close>, leaves
  the room table alone and delivers nothing to any session other than the sender. When
  the sender's transport is up, the only effect is the error reply naming the missing
  field, appended to what the sender was sent, and the loop goes on.
\<close>

theorem missing_code_rejected:
  assumes "map_of d ''code'' = None"
    and "WebSocketMessage_init V d = Inr m" and "msg_type m = ''code_update''"
  shows "update_calls (snd (websocket_endpoint_message V ws room_id (Json (JObj d)) w))
           = update_calls w \<and>
         rooms (snd (websocket_endpoint_message V ws room_id (Json (JObj d)) w)) = rooms w \<and>
         (\<forall>p t. (p, t) \<in> set (delivered w
                    (snd (websocket_endpoint_message V ws room_id (Json (JObj d)) w)))
                 \<longrightarrow> p = ws) \<and>
         (ws \<notin> broken w \<longrightarrow>
            websocket_endpoint_message V ws room_id (Json (JObj d)) w =
              (Running, w\<lparr>sent := sent w @
                 [(ws, json_dumps (error_message
                    (''Missing '' @ [CHR 0x27] @ ''code'' @ [CHR 0x27]
                       @ '' field in code_update message'')))]\<rparr>))"
proof -
  let ?t = "json_dumps (error_message
              (''Missing '' @ [CHR 0x27] @ ''code'' @ [CHR 0x27] @ '' field in code_update message''))"
  have c: "msg_code m = None"
    using assms(1,2) absent_code_is_None by blast
  have "receive_body V ws room_id (Json (JObj d)) w = send_text ws ?t w"
    using assms(2,3) c
    by (simp add: receive_body_def parse_message_def handle_code_update_def)
  then have r: "websocket_endpoint_message V ws room_id (Json (JObj d)) w =
           (if ws \<in> broken w then (Finished, disconnect room_id ws w)
            else (Running, w\<lparr>sent := sent w @ [(ws, ?t)]\<rparr>))"
    by (rule reply_turn)
  show ?thesis
    by (cases "ws \<in> broken w") (simp_all add: r delivered_def)
qed

theorem missing_code_rejected_witness:
  "map_of [(''type'', JStr ''code_update''), (''timestamp'', JInt 42)] ''code'' = None \<and>
   WebSocketMessage_init exact_types [(''type'', JStr ''code_update''), (''timestamp'', JInt 42)]
     = Inr \<lparr>msg_type = ''code_update'', msg_code = None, msg_timestamp = Some 42,
            msg_message = None, msg_roomId = None\<rparr> \<and>
   (1::nat) \<notin> broken (run_events exact_types
        [TableWritten [''abcd1234'' \<mapsto> ''''], Open 1 ''abcd1234'', Open 2 ''abcd1234''] fresh) \<and>
   fst (websocket_endpoint_message exact_types 1 ''abcd1234''
        (Json (JObj [(''type'', JStr ''code_update''), (''timestamp'', JInt 42)]))
        (run_events exact_types
           [TableWritten [''abcd1234'' \<mapsto> ''''], Open 1 ''abcd1234'', Open 2 ''abcd1234''] fresh))
     = Running \<and>
   update_calls (snd (websocket_endpoint_message exact_types 1 ''abcd1234''
        (Json (JObj [(''type'', JStr ''code_update''), (''timestamp'', JInt 42)]))
        (run_events exact_types
           [TableWritten [''abcd1234'' \<mapsto> ''''], Open 1 ''abcd1234'', Open 2 ''abcd1234''] fresh)))
     = [] \<and>
   delivered
     (run_events exact_types
        [TableWritten [''abcd1234'' \<mapsto> ''''], Open 1 ''abcd1234'', Open 2 ''abcd1234''] fresh)
     (snd (websocket_endpoint_message exact_types 1 ''abcd1234''
        (Json (JObj [(''type'', JStr ''code_update''), (''timestamp'', JInt 42)]))
        (run_events exact_types
           [TableWritten [''abcd1234'' \<mapsto> ''''], Open 1 ''abcd1234'', Open 2 ''abcd1234''] fresh)))
     = [(1, Json (JObj [(''type'', JStr ''error''),
          (''message'', JStr (''Missing '' @ [CHR 0x27] @ ''code'' @ [CHR 0x27]
                                @ '' field in code_update message''))]))]"
  using missing_code_rejected [of "[(''type'', JStr ''code_update''), (''timestamp'', JInt 42)]"
      exact_types
      "\<lparr>msg_type = ''code_update'', msg_code = None, msg_timestamp = Some 42,
        msg_message = None, msg_roomId = None\<rparr>"
      1 "''abcd1234''"
      "run_events exact_types
         [TableWritten [''abcd1234'' \<mapsto> ''''], Open 1 ''abcd1234'', Open 2 ''abcd1234''] fresh"]
  by (simp add: run_events_def fresh_def websocket_endpoint_open_def room_exists_def
      connect_def accept_def send_initial_state_def get_room_def send_text_def
      json_dumps_def error_message_def delivered_def WebSocketMessage_init_def
      required_field_def optional_field_def exact_types_def Let_def)

section \<open>Malformed payloads\<close>

text \<open>
  A text that is not JSON, and a JSON object that the schema rejects, are answered as
  the loop intends: an error reply to the sender, and the loop goes on (unless the
  sender's own transport is down).
\<close>

lemma invalid_json_reply:
  "websocket_endpoint_message V ws room_id (Garbage s) w =
     (if ws \<in> broken w then (Finished, disconnect room_id ws w)
      else (Running, w\<lparr>sent := sent w @
              [(ws, json_dumps (error_message ''Invalid JSON format''))]\<rparr>))"
  by (rule reply_turn) (simp add: receive_body_def parse_message_def)

lemma invalid_message_reply:
  assumes "WebSocketMessage_init V d = Inl e"
  shows "websocket_endpoint_message V ws room_id (Json (JObj d)) w =
     (if ws \<in> broken w then (Finished, disconnect room_id ws w)
      else (Running, w\<lparr>sent := sent w @
              [(ws, json_dumps (error_message ''Invalid message format''))]\<rparr>))"
proof -
  have "e = ValidationError"
    using assms
    by (auto simp: WebSocketMessage_init_def split: option.splits)
  then show ?thesis
    using assms by (intro reply_turn) (simp add: receive_body_def parse_message_def)
qed

text \<open>
  A JSON value that is not an object is different: the \<^verbatim>\<open>TypeError\<close> of the
  unpacking has no handler in the loop, so the turn ends in the outer handler, which
  disconnects the sender and sends nothing.
\<close>

lemma non_object_payload:
  assumes "\<And>d. j \<noteq> JObj d"
  shows "websocket_endpoint_message V ws room_id (Json j) w =
           (Finished, disconnect room_id ws w)"
proof (cases j)
  case (JObj d)
  with assms show ?thesis by blast
qed (simp_all add: websocket_endpoint_message_def receive_body_def parse_message_def)

text \<open>
  C7 fails on the code for such a payload. In a room with the two sessions 1 and 2, the
  text \<^verbatim>\<open>[]\<close> from session 1 ends its loop, removes it from the registry, and no error
  message is sent to anyone.
\<close>

theorem non_object_payload_disconnects:
  "sessions (run_events exact_types
        [TableWritten [''abcd1234'' \<mapsto> ''''], Open 1 ''abcd1234'', Open 2 ''abcd1234''] fresh)
      ''abcd1234'' = [1, 2] \<and>
   (1::nat) \<notin> broken (run_events exact_types
        [TableWritten [''abcd1234'' \<mapsto> ''''], Open 1 ''abcd1234'', Open 2 ''abcd1234''] fresh) \<and>
   fst (websocket_endpoint_message exact_types 1 ''abcd1234'' (Json (JArr []))
        (run_events exact_types
           [TableWritten [''abcd1234'' \<mapsto> ''''], Open 1 ''abcd1234'', Open 2 ''abcd1234''] fresh))
     = Finished \<and>
   sessions (snd (websocket_endpoint_message exact_types 1 ''abcd1234'' (Json (JArr []))
        (run_events exact_types
           [TableWritten [''abcd1234'' \<mapsto> ''''], Open 1 ''abcd1234'', Open 2 ''abcd1234''] fresh)))
      ''abcd1234'' = [2] \<and>
   delivered
     (run_events exact_types
        [TableWritten [''abcd1234'' \<mapsto> ''''], Open 1 ''abcd1234'', Open 2 ''abcd1234''] fresh)
     (snd (websocket_endpoint_message exact_types 1 ''abcd1234'' (Json (JArr []))
        (run_events exact_types
           [TableWritten [''abcd1234'' \<mapsto> ''''], Open 1 ''abcd1234'', Open 2 ''abcd1234''] fresh)))
     = []"
  by (simp add: websocket_endpoint_message_def receive_body_def parse_message_def
      run_events_def fresh_def websocket_endpoint_open_def room_exists_def
      connect_def accept_def send_initial_state_def get_room_def send_text_def
      disconnect_def json_dumps_def delivered_def sessions_def Let_def)

section \<open>Extra fields\<close>






section \<open>Rooms that do not exist\<close>

lemma shrinks_refl [simp]: "shrinks w w"
  by (simp add: shrinks_def)

lemma shrinks_trans: "shrinks w w1 \<Longrightarrow> shrinks w1 w2 \<Longrightarrow> shrinks w w2"
  unfolding shrinks_def by blast

lemma shrinks_disconnect: "shrinks w (disconnect room_id ws w)"
  by (auto simp: shrinks_def disconnect_def Let_def split: option.splits if_splits)

lemma shrinks_fold_disconnect: "shrinks w (fold (disconnect room_id) ds w)"
proof (induction ds arbitrary: w)
  case Nil
  then show ?case by simp
next
  case (Cons d ds)
  have "shrinks w (disconnect room_id d w)" by (rule shrinks_disconnect)
  moreover have "shrinks (disconnect room_id d w) (fold (disconnect room_id) ds (disconnect room_id d w))"
    by (rule Cons.IH)
  ultimately show ?case by (simp add: shrinks_trans)
qed

lemma shrinks_broadcast: "shrinks w (broadcast room_id message exclude w)"
proof (cases "active_connections w room_id")
  case None
  then show ?thesis by (simp add: broadcast_def)
next
  case (Some cs)
  let ?w1 = "w\<lparr>sent := sent w @ map (\<lambda>c. (c, json_dumps message))
                 (filter (\<lambda>c. Some c \<noteq> exclude \<and> c \<notin> broken w) cs)\<rparr>"
  have "shrinks w ?w1" by (simp add: shrinks_def)
  moreover have "shrinks ?w1
      (fold (disconnect room_id) (filter (\<lambda>c. Some c \<noteq> exclude \<and> c \<in> broken w) cs) ?w1)"
    by (rule shrinks_fold_disconnect)
  ultimately show ?thesis
    by (simp add: broadcast_eq [OF Some] shrinks_trans)
qed

lemma shrinks_send_text:
  assumes "send_text ws t w = (r, w')"
  shows "shrinks w w'"
  using assms by (auto simp: send_text_def shrinks_def split: if_splits)

lemma shrinks_close:
  assumes "close ws c reason w = (r, w')"
  shows "shrinks w w'"
  using assms by (auto simp: close_def shrinks_def split: if_splits)

lemma shrinks_update_room_code:
  assumes "update_room_code room_id c w = (r, w')"
  shows "shrinks w w'"
  using assms by (auto simp: update_room_code_eq shrinks_def split: if_splits)

lemma shrinks_catch:
  assumes "(case X of (Inl e, w2) \<Rightarrow> send_text ws t w2 | (Inr u, w2) \<Rightarrow> (Inr u, w2)) = (r, w')"
    and "\<And>r0 w0. X = (r0, w0) \<Longrightarrow> shrinks w w0"
  shows "shrinks w w'"
proof -
  obtain r0 w0 where x: "X = (r0, w0)"
    by (cases X) blast
  have a: "shrinks w w0" using x by (rule assms(2))
  show ?thesis
  proof (cases r0)
    case (Inl e)
    then have "send_text ws t w0 = (r, w')"
      using assms(1) by (simp add: x)
    then have "shrinks w0 w'" by (rule shrinks_send_text)
    with a show ?thesis by (rule shrinks_trans)
  next
    case (Inr u)
    then have "w' = w0"
      using assms(1) by (simp add: x)
    with a show ?thesis by simp
  qed
qed

lemma shrinks_send_initial_state:
  assumes "send_initial_state ws room_id w = (r, w')"
  shows "shrinks w w'"
proof (rule shrinks_catch [OF assms [unfolded send_initial_state_def]])
  fix r0 w0
  assume "(case get_room room_id w of
              (Inl e, w1) \<Rightarrow> (Inl e, w1)
            | (Inr None, w1) \<Rightarrow> send_text ws (json_dumps (error_message ''Room not found'')) w1
            | (Inr (Some code), w1) \<Rightarrow>
                send_text ws (json_dumps (JObj [(''type'', JStr ''initial_state''),
                                                (''code'', JStr code),
                                                (''roomId'', JStr room_id)])) w1) = (r0, w0)"
  then show "shrinks w w0"
    by (auto simp: get_room_def split: if_splits option.splits dest: shrinks_send_text)
qed

lemma shrinks_update_then:
  assumes "(case update_room_code room_id c w of
              (Inl e, w1) \<Rightarrow> (Inl e, w1)
            | (Inr None, w1) \<Rightarrow> send_text ws t w1
            | (Inr (Some updated_room), w1) \<Rightarrow> (Inr (), broadcast room_id message exclude w1))
           = (r0, w0)"
  shows "shrinks w w0"
proof -
  obtain r1 w1 where u: "update_room_code room_id c w = (r1, w1)"
    by (cases "update_room_code room_id c w") blast
  have a: "shrinks w w1"
    using u by (rule shrinks_update_room_code)
  have "shrinks w1 w0"
  proof (cases r1)
    case (Inl e)
    then show ?thesis using assms by (simp add: u)
  next
    case (Inr x)
    show ?thesis
    proof (cases x)
      case None
      then have "send_text ws t w1 = (r0, w0)"
        using assms Inr by (simp add: u)
      then show ?thesis by (rule shrinks_send_text)
    next
      case (Some room)
      then have "w0 = broadcast room_id message exclude w1"
        using assms Inr by (simp add: u)
      then show ?thesis by (simp add: shrinks_broadcast)
    qed
  qed
  with a show ?thesis by (rule shrinks_trans)
qed

lemma shrinks_handle_code_update:
  assumes "handle_code_update ws room_id m w = (r, w')"
  shows "shrinks w w'"
proof (cases "msg_code m")
  case None
  then show ?thesis
    using assms by (auto simp: handle_code_update_def dest: shrinks_send_text)
next
  case (Some c)
  show ?thesis
    by (rule shrinks_catch [OF assms [unfolded handle_code_update_def Some option.case]])
       (rule shrinks_update_then)
qed

lemma shrinks_receive_body:
  assumes "receive_body V ws room_id data w = (r, w')"
  shows "shrinks w w'"
  using assms
  by (auto simp: receive_body_def split: sum.splits exn.splits if_splits
      dest: shrinks_send_text shrinks_handle_code_update)

lemma shrinks_message: "shrinks w (snd (websocket_endpoint_message V ws room_id data w))"
proof -
  obtain r1 w1 where b: "receive_body V ws room_id data w = (r1, w1)"
    by (cases "receive_body V ws room_id data w") blast
  have "shrinks w w1" using b by (rule shrinks_receive_body)
  moreover have "shrinks w1 (disconnect room_id ws w1)" by (rule shrinks_disconnect)
  ultimately show ?thesis
    by (cases r1) (auto simp: websocket_endpoint_message_def b intro: shrinks_trans)
qed

lemma open_registered_rooms_exist:
  assumes "dom (active_connections w) \<subseteq> dom (rooms w)"
  shows "dom (active_connections (snd (websocket_endpoint_open ws room_id w)))
           \<subseteq> dom (rooms (snd (websocket_endpoint_open ws room_id w)))"
proof (cases "db_down w \<or> rooms w room_id = None")
  case True
  have "active_connections (snd (websocket_endpoint_open ws room_id w)) = active_connections w"
    and "rooms (snd (websocket_endpoint_open ws room_id w)) = rooms w"
    using True by (auto simp: websocket_endpoint_open_def room_exists_def close_def)
  then show ?thesis
    using assms by simp
next
  case False
  obtain r2 w2 where c: "connect room_id ws w = (r2, w2)"
    by (cases "connect room_id ws w") blast
  have d: "dom (active_connections w2) \<subseteq> insert room_id (dom (active_connections w))"
    and r: "rooms w2 = rooms w"
    using c by (auto simp: connect_def accept_def Let_def split: if_splits option.splits)
  have "room_id \<in> dom (rooms w)"
    using False by (simp add: domIff)
  then have c2: "dom (active_connections w2) \<subseteq> dom (rooms w2)"
    using d assms unfolding r by blast
  obtain r3 w3 where s: "send_initial_state ws room_id w2 = (r3, w3)"
    by (cases "send_initial_state ws room_id w2") blast
  have "shrinks w2 w3" using s by (rule shrinks_send_initial_state)
  moreover have "shrinks w3 (disconnect room_id ws w3)" by (rule shrinks_disconnect)
  ultimately have c3: "dom (active_connections w3) \<subseteq> dom (rooms w3)"
    and c4: "dom (active_connections (disconnect room_id ws w3))
               \<subseteq> dom (rooms (disconnect room_id ws w3))"
    using c2 unfolding shrinks_def by blast+
  have "snd (websocket_endpoint_open ws room_id w) = w2 \<or>
        snd (websocket_endpoint_open ws room_id w) = w3 \<or>
        snd (websocket_endpoint_open ws room_id w) = disconnect room_id ws w3"
    using False
    by (auto simp: websocket_endpoint_open_def room_exists_def c s split: sum.splits)
  then show ?thesis using c2 c3 c4 by (elim disjE) simp_all
qed

lemma step_registered_rooms_exist:
  assumes "dom (active_connections w) \<subseteq> dom (rooms w)"
  shows "dom (active_connections (step V ev w)) \<subseteq> dom (rooms (step V ev w))"
proof (cases ev)
  case (Open ws room_id)
  then show ?thesis
    using assms by (simp add: open_registered_rooms_exist)
next
  case (Receive ws room_id data)
  then show ?thesis
    using assms shrinks_message [of w V ws room_id data]
    unfolding shrinks_def by (simp only: step.simps) blast
next
  case (Hangup ws room_id)
  then show ?thesis
    using assms shrinks_disconnect [of w room_id ws]
    unfolding shrinks_def
    by (simp only: step.simps websocket_endpoint_disconnect_def snd_conv) blast
next
  case (TransportsDown down)
  then show ?thesis using assms by simp
next
  case (DatabaseDown b)
  then show ?thesis using assms by simp
next
  case (TableWritten t)
  show ?thesis
  proof (cases "dom (rooms w) \<subseteq> dom t")
    case True
    then have "dom (active_connections w) \<subseteq> dom t"
      using assms by blast
    then show ?thesis using True by (simp add: TableWritten)
  next
    case False
    then show ?thesis using assms by (simp add: TableWritten)
  qed
qed

lemma run_registered_rooms_exist:
  assumes "dom (active_connections w) \<subseteq> dom (rooms w)"
  shows "dom (active_connections (run_events V evs w)) \<subseteq> dom (rooms (run_events V evs w))"
  unfolding run_events_def using assms
proof (induction evs arbitrary: w)
  case Nil
  then show ?case by simp
next
  case (Cons ev evs)
  have "dom (active_connections (step V ev w)) \<subseteq> dom (rooms (step V ev w))"
    using Cons.prems by (rule step_registered_rooms_exist)
  then show ?case using Cons.IH by simp
qed

text \<open>
  C5. Let the server run from an empty registry through any events, and let a client
  then open the endpoint for a room id for which \<^verbatim>\<open>room_exists\<close> returns false. The
  call ends at once: no transport is accepted, nothing is sent, the registry is
  unchanged and has no entry for that room id. Unless the client's transport is already
  down, the one effect is the close with code 4004 and reason \<^verbatim>\<open>Room not found\<close>.
\<close>

theorem refused_when_room_missing:
  assumes "active_connections w0 = Map.empty"
    and "fst (room_exists room_id (run_events V evs w0)) = Inr False"
  shows "fst (websocket_endpoint_open ws room_id (run_events V evs w0)) = Finished \<and>
         active_connections (snd (websocket_endpoint_open ws room_id (run_events V evs w0)))
           = active_connections (run_events V evs w0) \<and>
         accepted (snd (websocket_endpoint_open ws room_id (run_events V evs w0)))
           = accepted (run_events V evs w0) \<and>
         sent (snd (websocket_endpoint_open ws room_id (run_events V evs w0)))
           = sent (run_events V evs w0) \<and>
         active_connections (snd (websocket_endpoint_open ws room_id (run_events V evs w0))) room_id
           = None \<and>
         (ws \<notin> broken (run_events V evs w0) \<longrightarrow>
            snd (websocket_endpoint_open ws room_id (run_events V evs w0)) =
              (run_events V evs w0)\<lparr>closes := closes (run_events V evs w0) @
                                        [(ws, 4004, ''Room not found'')]\<rparr>)"
proof -
  let ?w = "run_events V evs w0"
  have up: "\<not> db_down ?w" and missing: "rooms ?w room_id = None"
    using assms(2) by (auto simp: room_exists_def split: if_splits)
  have "dom (active_connections ?w) \<subseteq> dom (rooms ?w)"
    using assms(1) by (intro run_registered_rooms_exist) simp
  then have none: "active_connections ?w room_id = None"
    using missing by blast
  have r: "websocket_endpoint_open ws room_id ?w =
             (Finished, snd (close ws 4004 ''Room not found'' ?w))"
    using up missing by (simp add: websocket_endpoint_open_def room_exists_def)
  show ?thesis
    unfolding r using none by (simp add: close_def)
qed

theorem refused_when_room_missing_witness:
  "active_connections fresh = Map.empty \<and>
   fst (room_exists ''nonexist1'' (run_events exact_types
          [TableWritten [''abcd1234'' \<mapsto> ''''], Open 1 ''abcd1234''] fresh)) = Inr False \<and>
   (2::nat) \<notin> broken (run_events exact_types
          [TableWritten [''abcd1234'' \<mapsto> ''''], Open 1 ''abcd1234''] fresh) \<and>
   fst (websocket_endpoint_open 2 ''nonexist1'' (run_events exact_types
          [TableWritten [''abcd1234'' \<mapsto> ''''], Open 1 ''abcd1234''] fresh)) = Finished \<and>
   closes (snd (websocket_endpoint_open 2 ''nonexist1'' (run_events exact_types
          [TableWritten [''abcd1234'' \<mapsto> ''''], Open 1 ''abcd1234''] fresh)))
     = [(2, 4004, ''Room not found'')] \<and>
   sessions (snd (websocket_endpoint_open 2 ''nonexist1'' (run_events exact_types
          [TableWritten [''abcd1234'' \<mapsto> ''''], Open 1 ''abcd1234''] fresh))) ''abcd1234'' = [1] \<and>
   active_connections (snd (websocket_endpoint_open 2 ''nonexist1'' (run_events exact_types
          [TableWritten [''abcd1234'' \<mapsto> ''''], Open 1 ''abcd1234''] fresh))) ''nonexist1'' = None"
  using refused_when_room_missing [of fresh "''nonexist1''" exact_types
      "[TableWritten [''abcd1234'' \<mapsto> ''''], Open 1 ''abcd1234'']" 2]
  by (simp add: run_events_def fresh_def websocket_endpoint_open_def room_exists_def
      connect_def accept_def send_initial_state_def get_room_def send_text_def close_def
      json_dumps_def sessions_def Let_def)

end
